theory Spec2Isabelle
  imports Main
begin

section \<open>Data model\<close>

text \<open>
  A \<^verbatim>\<open>time.Time\<close> read from the release source: the instant (nanoseconds since the epoch)
  and the zone offset it was written with. \<^verbatim>\<open>Time.After\<close> compares instants only; the
  values handled here come from parsed text and carry no monotonic clock reading.
\<close>

record Time =
  unixNano :: int
  zoneOffset :: int

definition After :: "Time \<Rightarrow> Time \<Rightarrow> bool" where
  "After t u = (unixNano u < unixNano t)"

text \<open>
  Modelled from the spec: the declarations of the types \<^verbatim>\<open>Release\<close> and \<^verbatim>\<open>Repository\<close>
  are not part of the source at hand. The fields are those of ReleaseSnapshot and
  RepositorySnapshot (spec section 3), which are also the fields that the struct literal
  at the end of \<^verbatim>\<open>query\<close> fills in. A URL value is kept as its text.
\<close>

record Release =
  ID :: string
  Name :: string
  Description :: string
  URL :: string
  PublishedAt :: Time

record Repository =
  ID :: string
  Name :: string
  Owner :: string
  Description :: string
  URL :: string
  Release :: Release

text \<open>
  \<^verbatim>\<open>githubv4.ID\<close> is an empty interface: the dynamic value decoded from the response may be
  a string or anything else. The type assertion \<^verbatim>\<open>.(string)\<close> succeeds on \<open>IDString\<close> only.
\<close>

datatype githubv4_ID = IDNil | IDString string | IDNumber int | IDBool bool

text \<open>
  The anonymous struct that \<^verbatim>\<open>query\<close> decodes the response into: \<open>Node\<close> is one element of
  \<^verbatim>\<open>Releases.Edges\<close>, \<open>query_Repository\<close> is the field \<^verbatim>\<open>Repository\<close> with
  \<^verbatim>\<open>Releases.Edges\<close> as \<open>Edges\<close>. A \<^verbatim>\<open>githubv4.URI\<close> holds a pointer to a URL, which is
  \<open>None\<close> when nil.
\<close>

record Node =
  ID :: githubv4_ID
  Name :: string
  Description :: string
  URL :: "string option"
  PublishedAt :: Time

record query_Repository =
  ID :: githubv4_ID
  Name :: string
  Description :: string
  URL :: "string option"
  Edges :: "Node list"

text \<open>
  Errors are values. \<open>Foreign\<close> is an error made outside this program (by the operating
  system, the JSON codec or the GraphQL client), \<open>Wrap\<close> is \<^verbatim>\<open>fmt.Errorf\<close> with \<^verbatim>\<open>%w\<close>,
  \<open>Errorf\<close> is \<^verbatim>\<open>fmt.Errorf\<close> with \<^verbatim>\<open>%v\<close> and \<^verbatim>\<open>%s\<close> arguments.
\<close>

datatype fmtarg = VID githubv4_ID | VString string

datatype error = Foreign nat | Wrap string error | Errorf string "fmtarg list"

text \<open>A run-time panic ends the goroutine, and with it the process.\<close>

datatype panic = IndexOutOfRange | NilMapAssignment | NilDereference

datatype 'a outcome = Panicked panic | Failed error | Returned 'a

datatype level = Debug | Info | Warn | Error

section \<open>The environment\<close>

text \<open>
  The library calls of the program, as parameters: \<open>'fs\<close> is the state of the file system,
  \<open>'net\<close> the state of the remote release source, \<open>'b\<close> the type of file contents.
  \<open>Unmarshal\<close> takes the current value of the destination map (\<open>None\<close> is the nil map) and
  returns its new value together with the error; \<open>Query\<close> returns the decoded response or
  the error (a timeout included).
\<close>

record ('fs, 'net, 'b) env =
  ReadFile :: "'fs \<Rightarrow> string \<Rightarrow> error + 'b"
  IsNotExist :: "error \<Rightarrow> bool"
  WriteFile :: "'fs \<Rightarrow> string \<Rightarrow> 'b \<Rightarrow> nat \<Rightarrow> error option \<times> 'fs"
  MarshalIndent :: "(string \<rightharpoonup> Repository) option \<Rightarrow> string \<Rightarrow> string \<Rightarrow> error + 'b"
  Unmarshal :: "'b \<Rightarrow> (string \<rightharpoonup> Repository) option
                  \<Rightarrow> error option \<times> (string \<rightharpoonup> Repository) option"
  Query :: "'net \<Rightarrow> string \<Rightarrow> string \<Rightarrow> (error + query_Repository) \<times> 'net"

section \<open>The checker\<close>

text \<open>
  The struct \<^verbatim>\<open>Checker\<close>: \<open>logger\<close> is what has been logged so far, \<open>client\<close> the state of
  the remote source the client talks to, \<open>releases\<close> the in-memory map (\<open>None\<close> is nil).
  A \<open>state\<close> adds what \<^verbatim>\<open>Run\<close> acts on besides the checker: the file system and the values
  sent so far on the channel \<^verbatim>\<open>releases chan<- Repository\<close>, oldest first.
\<close>

record 'net Checker =
  logger :: "(level \<times> string) list"
  client :: 'net
  releases :: "(string \<rightharpoonup> Repository) option"
  filepath :: string

record ('fs, 'net) state = "'net Checker" +
  disk :: 'fs
  chan :: "Repository list"

definition Log :: "level \<Rightarrow> string \<Rightarrow> ('fs, 'net) state \<Rightarrow> ('fs, 'net) state" where
  "Log lvl msg c = c\<lparr>logger := logger c @ [(lvl, msg)]\<rparr>"

definition LoadReleases ::
  "('fs, 'net, 'b) env \<Rightarrow> ('fs, 'net) state \<Rightarrow> error option \<times> ('fs, 'net) state" where
  "LoadReleases env c =
     (case ReadFile env (disk c) (filepath c) of
        Inl err \<Rightarrow>
          if IsNotExist env err then (None, c\<lparr>releases := Some Map.empty\<rparr>)
          else (Some (Wrap ''failed to read releases file: %w'' err), c)
      | Inr data \<Rightarrow>
          (case Unmarshal env data (releases c) of
             (Some err, r) \<Rightarrow>
               (Some (Wrap ''failed to unmarshal releases: %w'' err), c\<lparr>releases := r\<rparr>)
           | (None, r) \<Rightarrow> (None, c\<lparr>releases := r\<rparr>)))"

definition SaveReleases ::
  "('fs, 'net, 'b) env \<Rightarrow> ('fs, 'net) state \<Rightarrow> error option \<times> ('fs, 'net) state" where
  "SaveReleases env c =
     (case MarshalIndent env (releases c) '''' ''  '' of
        Inl err \<Rightarrow> (Some (Wrap ''failed to marshal releases: %w'' err), c)
      | Inr data \<Rightarrow>
          (case WriteFile env (disk c) (filepath c) data 420 of
             (Some err, fs) \<Rightarrow>
               (Some (Wrap ''failed to write releases file: %w'' err), c\<lparr>disk := fs\<rparr>)
           | (None, fs) \<Rightarrow> (None, c\<lparr>disk := fs\<rparr>)))"

text \<open>
  \<^verbatim>\<open>query\<close>: the checks are made in the order of the source, and the two pointer
  dereferences of the struct literal panic on a nil URL.
\<close>

definition query ::
  "('fs, 'net, 'b) env \<Rightarrow> ('fs, 'net) state \<Rightarrow> string \<Rightarrow> string
     \<Rightarrow> Repository outcome \<times> ('fs, 'net) state" where
  "query env c owner name =
     (case Query env (client c) owner name of
        (Inl err, net) \<Rightarrow> (Failed err, c\<lparr>client := net\<rparr>)
      | (Inr q, net) \<Rightarrow>
          (case query_Repository.ID q of
             IDString repositoryID \<Rightarrow>
               (case Edges q of
                  [] \<Rightarrow>
                    (Failed (Errorf ''can't find any releases for %s/%s''
                       [VString owner, VString name]), c\<lparr>client := net\<rparr>)
                | edge # _ \<Rightarrow>
                    (case Node.ID edge of
                       IDString releaseID \<Rightarrow>
                         (case (query_Repository.URL q, Node.URL edge) of
                            (Some url, Some releaseURL) \<Rightarrow>
                              (Returned
                                 \<lparr>Repository.ID = repositoryID,
                                  Name = query_Repository.Name q,
                                  Owner = owner,
                                  Description = query_Repository.Description q,
                                  URL = url,
                                  Release =
                                    \<lparr>Release.ID = releaseID,
                                     Name = Node.Name edge,
                                     Description = Node.Description edge,
                                     URL = releaseURL,
                                     PublishedAt = Node.PublishedAt edge\<rparr>\<rparr>,
                               c\<lparr>client := net\<rparr>)
                          | _ \<Rightarrow> (Panicked NilDereference, c\<lparr>client := net\<rparr>))
                     | _ \<Rightarrow>
                         (Failed (Errorf ''can't convert release id to string: %v''
                            [VID (query_Repository.ID q)]), c\<lparr>client := net\<rparr>)))
           | _ \<Rightarrow>
               (Failed (Errorf ''can't convert repository id to string: %v''
                  [VID (query_Repository.ID q)]), c\<lparr>client := net\<rparr>)))"

section \<open>The loop of \<^verbatim>\<open>Run\<close>\<close>

text \<open>
  \<^verbatim>\<open>strings.Split\<close> for a separator of one character: the pieces between the occurrences
  of the separator, one more than there are occurrences, empty pieces included.
\<close>

fun Split :: "string \<Rightarrow> char \<Rightarrow> string list" where
  "Split [] sep = [[]]"
| "Split (ch # cs) sep =
     (if ch = sep then [] # Split cs sep
      else (case Split cs sep of [] \<Rightarrow> [[ch]] | w # ws \<Rightarrow> (ch # w) # ws))"

text \<open>The start of \<^verbatim>\<open>Run\<close>: a nil map is loaded, and a failed load leaves an empty map.\<close>

definition Run_init :: "('fs, 'net, 'b) env \<Rightarrow> ('fs, 'net) state \<Rightarrow> ('fs, 'net) state" where
  "Run_init env c =
     (if releases c = None then
        (case LoadReleases env c of
           (Some err, c1) \<Rightarrow> (Log Error ''failed to load releases'' c1)\<lparr>releases := Some Map.empty\<rparr>
         | (None, c1) \<Rightarrow> c1)
      else c)"

text \<open>
  The body of the inner loop for one \<^verbatim>\<open>repoName\<close>. \<^verbatim>\<open>s[1]\<close> panics when the split has
  one piece only. Reading a nil map gives \<^verbatim>\<open>ok = false\<close>, and the assignment that follows
  panics. The send on the channel comes before the update of the map.
\<close>

definition Run_body ::
  "('fs, 'net, 'b) env \<Rightarrow> ('fs, 'net) state \<Rightarrow> string \<Rightarrow> panic + ('fs, 'net) state" where
  "Run_body env c repoName =
     (let s = Split repoName CHR ''/'' in
      if length s < 2 then Inl IndexOutOfRange
      else
        let owner = s ! 0; name = s ! 1 in
        case query env c owner name of
          (Panicked p, c1) \<Rightarrow> Inl p
        | (Failed err, c1) \<Rightarrow> Inr (Log Warn ''failed to query the repository's releases'' c1)
        | (Returned nextRepo, c1) \<Rightarrow>
            let c2 = Log Info ''repository checked'' c1 in
            (case releases c2 of
               None \<Rightarrow> Inl NilMapAssignment
             | Some m \<Rightarrow>
                 (case m repoName of
                    None \<Rightarrow>
                      (case SaveReleases env (c2\<lparr>releases := Some (m(repoName \<mapsto> nextRepo))\<rparr>) of
                         (Some err, c3) \<Rightarrow> Inr (Log Error ''failed to save releases'' c3)
                       | (None, c3) \<Rightarrow> Inr c3)
                  | Some currRepo \<Rightarrow>
                      if After (Release.PublishedAt (Release nextRepo))
                               (Release.PublishedAt (Release currRepo))
                      then
                        let c3 = Log Info ''new release found'' c2;
                            c4 = c3\<lparr>chan := chan c3 @ [nextRepo]\<rparr>;
                            c5 = c4\<lparr>releases := Some (m(repoName \<mapsto> nextRepo))\<rparr>
                        in (case SaveReleases env c5 of
                              (Some err, c6) \<Rightarrow> Inr (Log Error ''failed to save releases'' c6)
                            | (None, c6) \<Rightarrow> Inr c6)
                      else Inr (Log Debug ''no new release for repository'' c2))))"

text \<open>One cycle: the inner loop over \<^verbatim>\<open>repositories\<close>, in order. A panic ends it.\<close>

fun Run_cycle ::
  "('fs, 'net, 'b) env \<Rightarrow> string list \<Rightarrow> ('fs, 'net) state \<Rightarrow> panic + ('fs, 'net) state" where
  "Run_cycle env [] c = Inr c"
| "Run_cycle env (repoName # rest) c =
     (case Run_body env c repoName of
        Inl p \<Rightarrow> Inl p
      | Inr c1 \<Rightarrow> Run_cycle env rest c1)"

text \<open>
  The outer loop has no exit; \<open>Run_loop\<close> gives the state after a number of cycles. The
  sleep between two cycles changes nothing of the state.
\<close>

fun Run_loop ::
  "('fs, 'net, 'b) env \<Rightarrow> nat \<Rightarrow> string list \<Rightarrow> ('fs, 'net) state
     \<Rightarrow> panic + ('fs, 'net) state" where
  "Run_loop env 0 repositories c = Inr c"
| "Run_loop env (Suc n) repositories c =
     (case Run_cycle env repositories c of
        Inl p \<Rightarrow> Inl p
      | Inr c1 \<Rightarrow> Run_loop env n repositories c1)"

definition Run ::
  "('fs, 'net, 'b) env \<Rightarrow> nat \<Rightarrow> string list \<Rightarrow> ('fs, 'net) state
     \<Rightarrow> panic + ('fs, 'net) state" where
  "Run env n repositories c = Run_loop env n repositories (Run_init env c)"

section \<open>An environment in memory, and the scenarios of the specification\<close>

text \<open>
  Files are kept in a map from paths; the content of a file is the list of the entries of
  the state, or \<open>None\<close> for the encoding of a nil map. The codec encodes the entries of the
  watched keys, and decodes by storing each entry into the destination map, which is
  made first when it is nil. The remote source is a table from owner and name to responses.
\<close>

type_synonym memfile = "(string \<times> Repository) list option"

definition watched :: "string list" where
  "watched = [''acme/widget'', ''foo/bar'']"

definition mem_ReadFile :: "(string \<rightharpoonup> memfile) \<Rightarrow> string \<Rightarrow> error + memfile" where
  "mem_ReadFile fs path = (case fs path of None \<Rightarrow> Inl (Foreign 2) | Some data \<Rightarrow> Inr data)"

definition mem_WriteFile ::
  "(string \<rightharpoonup> memfile) \<Rightarrow> string \<Rightarrow> memfile \<Rightarrow> nat \<Rightarrow> error option \<times> (string \<rightharpoonup> memfile)" where
  "mem_WriteFile fs path data perm = (None, fs(path \<mapsto> data))"

definition mem_MarshalIndent ::
  "(string \<rightharpoonup> Repository) option \<Rightarrow> string \<Rightarrow> string \<Rightarrow> error + memfile" where
  "mem_MarshalIndent r prefix indent =
     Inr (map_option (\<lambda>m. List.map_filter (\<lambda>k. map_option (Pair k) (m k)) watched) r)"

definition mem_Unmarshal ::
  "memfile \<Rightarrow> (string \<rightharpoonup> Repository) option
     \<Rightarrow> error option \<times> (string \<rightharpoonup> Repository) option" where
  "mem_Unmarshal data cur =
     (case data of
        None \<Rightarrow> (None, None)
      | Some entries \<Rightarrow>
          (None, Some (fold (\<lambda>(k, v) m. m(k \<mapsto> v)) entries
                         (case cur of None \<Rightarrow> Map.empty | Some m \<Rightarrow> m))))"

type_synonym memnet = "string \<times> string \<Rightarrow> error + query_Repository"

definition mem_Query :: "memnet \<Rightarrow> string \<Rightarrow> string \<Rightarrow> (error + query_Repository) \<times> memnet" where
  "mem_Query net owner name = (net (owner, name), net)"

definition mem_env :: "(string \<rightharpoonup> memfile, memnet, memfile) env" where
  "mem_env =
     \<lparr>ReadFile = mem_ReadFile, IsNotExist = (\<lambda>err. err = Foreign 2),
      WriteFile = mem_WriteFile, MarshalIndent = mem_MarshalIndent,
      Unmarshal = mem_Unmarshal, Query = mem_Query\<rparr>"

text \<open>The same environment on a file system that refuses every write.\<close>

definition rofs_env :: "(string \<rightharpoonup> memfile, memnet, memfile) env" where
  "rofs_env = mem_env\<lparr>WriteFile := (\<lambda>fs path data perm. (Some (Foreign 30), fs))\<rparr>"

text \<open>The same environment on a file system that refuses every read, with an error
  other than that of a missing file.\<close>

definition noperm_env :: "(string \<rightharpoonup> memfile, memnet, memfile) env" where
  "noperm_env = mem_env\<lparr>ReadFile := (\<lambda>fs path. Inl (Foreign 13))\<rparr>"

definition response :: "string \<Rightarrow> string \<Rightarrow> string \<Rightarrow> int \<Rightarrow> query_Repository" where
  "response repo rel version at =
     \<lparr>query_Repository.ID = IDString repo, Name = ''widget'', Description = '''',
      URL = Some ''u'',
      Edges = [\<lparr>Node.ID = IDString rel, Name = version, Description = '''',
                URL = Some ''r'', PublishedAt = \<lparr>unixNano = at, zoneOffset = 0\<rparr>\<rparr>]\<rparr>"

definition snapshot :: "string \<Rightarrow> string \<Rightarrow> string \<Rightarrow> string \<Rightarrow> int \<Rightarrow> Repository" where
  "snapshot owner repo rel version at =
     \<lparr>Repository.ID = repo, Name = ''widget'', Owner = owner, Description = '''', URL = ''u'',
      Release = \<lparr>Release.ID = rel, Name = version, Description = '''', URL = ''r'',
                 PublishedAt = \<lparr>unixNano = at, zoneOffset = 0\<rparr>\<rparr>\<rparr>"

definition serving :: "string \<Rightarrow> string \<Rightarrow> query_Repository \<Rightarrow> memnet" where
  "serving owner name q = (\<lambda>key. if key = (owner, name) then Inr q else Inl (Foreign 404))"

definition checker ::
  "memnet \<Rightarrow> (string \<rightharpoonup> Repository) option \<Rightarrow> (string \<rightharpoonup> memfile, memnet) state" where
  "checker net r =
     \<lparr>logger = [], client = net, releases = r, filepath = ''releases.json'',
      disk = Map.empty, chan = []\<rparr>"

text \<open>Scenarios 1 to 3: \<^verbatim>\<open>acme/widget\<close> at v1.0.0 of 2024-01-01, then at v1.1.0 of 2024-02-01.\<close>

definition v100 :: Repository where
  "v100 = snapshot ''acme'' ''R1'' ''L1'' ''v1.0.0'' 1704067200000000000"

definition v110 :: Repository where
  "v110 = snapshot ''acme'' ''R1'' ''L2'' ''v1.1.0'' 1706745600000000000"

definition serving_v100 :: memnet where
  "serving_v100 =
     serving ''acme'' ''widget'' (response ''R1'' ''L1'' ''v1.0.0'' 1704067200000000000)"

definition serving_v110 :: memnet where
  "serving_v110 =
     serving ''acme'' ''widget'' (response ''R1'' ''L2'' ''v1.1.0'' 1706745600000000000)"

text \<open>Scenario 4: \<^verbatim>\<open>acme/widget\<close> has no release, \<^verbatim>\<open>foo/bar\<close> has a new one.\<close>

definition bar1 :: Repository where
  "bar1 = snapshot ''foo'' ''R2'' ''B1'' ''0.1'' 5"

definition bar2 :: Repository where
  "bar2 = snapshot ''foo'' ''R2'' ''B2'' ''0.2'' 6"

definition serving_scenario4 :: memnet where
  "serving_scenario4 =
     (\<lambda>key. if key = (''acme'', ''widget'')
             then Inr ((response ''R1'' ''L1'' ''v1.0.0'' 0)\<lparr>Edges := []\<rparr>)
             else if key = (''foo'', ''bar'') then Inr (response ''R2'' ''B2'' ''0.2'' 6)
             else Inl (Foreign 404))"

text \<open>The states of scenario 1 before and after its step, and of scenario 4 before and
  after the step of the key whose query fails.\<close>

definition scenario1_start :: "(string \<rightharpoonup> memfile, memnet) state" where
  "scenario1_start = checker serving_v100 (Some Map.empty)"

definition scenario1_done :: "(string \<rightharpoonup> memfile, memnet) state" where
  "scenario1_done =
     scenario1_start
       \<lparr>logger := [(Info, ''repository checked'')],
        releases := Some [''acme/widget'' \<mapsto> v100],
        disk := [''releases.json'' \<mapsto> Some [(''acme/widget'', v100)]]\<rparr>"

definition scenario4_start :: "(string \<rightharpoonup> memfile, memnet) state" where
  "scenario4_start = checker serving_scenario4 (Some [''foo/bar'' \<mapsto> bar1])"

definition scenario4_failed :: "(string \<rightharpoonup> memfile, memnet) state" where
  "scenario4_failed =
     scenario4_start\<lparr>logger := [(Warn, ''failed to query the repository's releases'')]\<rparr>"

text \<open>Responses that \<^verbatim>\<open>query\<close> must refuse: no release, a repository identifier that is
  not a string, a release identifier that is not a string.\<close>

definition no_releases :: query_Repository where
  "no_releases = (response ''R1'' ''L1'' ''v1.0.0'' 0)\<lparr>Edges := []\<rparr>"

definition numeric_repository_id :: query_Repository where
  "numeric_repository_id = (response ''R1'' ''L1'' ''v1.0.0'' 0)\<lparr>query_Repository.ID := IDNumber 7\<rparr>"

definition nil_release_id :: query_Repository where
  "nil_release_id =
     (response ''R1'' ''L1'' ''v1.0.0'' 0)
       \<lparr>Edges := [\<lparr>Node.ID = IDNil, Name = ''v1.0.0'', Description = '''', URL = Some ''r'',
                   PublishedAt = \<lparr>unixNano = 0, zoneOffset = 0\<rparr>\<rparr>]\<rparr>"

text \<open>An environment whose decoder refuses every input, and the state of a checker that
  starts again on the file left by scenario 1.\<close>

definition badjson_env :: "(string \<rightharpoonup> memfile, memnet, memfile) env" where
  "badjson_env = mem_env\<lparr>Unmarshal := (\<lambda>data cur. (Some (Foreign 1), cur))\<rparr>"

definition restarted :: "(string \<rightharpoonup> memfile, memnet) state" where
  "restarted = (checker serving_v100 None)\<lparr>disk := [''releases.json'' \<mapsto> Some [(''acme/widget'', v100)]]\<rparr>"

text \<open>The state of a checker that starts on a file holding the encoding of a nil map (the
  JSON text \<^verbatim>\<open>null\<close>): the file is there and decodes without error, to a nil map.\<close>

definition null_start :: "(string \<rightharpoonup> memfile, memnet) state" where
  "null_start = (checker serving_v100 None)\<lparr>disk := [''releases.json'' \<mapsto> None]\<rparr>"

section \<open>Basic facts\<close>

lemma Split_not_Nil: "Split s sep \<noteq> []"
  by (induction s) (auto split: list.splits)

lemma Split_unfold:
  "Split s sep =
     takeWhile (\<lambda>ch. ch \<noteq> sep) s #
       (if sep \<in> set s then Split (tl (dropWhile (\<lambda>ch. ch \<noteq> sep) s)) sep else [])"
proof (induction s)
  case Nil
  show ?case by simp
next
  case (Cons ch cs)
  show ?case
  proof (cases "ch = sep")
    case True
    then show ?thesis by simp
  next
    case False
    obtain w ws where w: "Split cs sep = w # ws"
      using Split_not_Nil [of cs sep] by (cases "Split cs sep") auto
    with Cons False show ?thesis by auto
  qed
qed

lemma Split_length: "2 \<le> length (Split s sep) \<longleftrightarrow> sep \<in> set s"
proof (cases "sep \<in> set s")
  case True
  have "Split (tl (dropWhile (\<lambda>ch. ch \<noteq> sep) s)) sep \<noteq> []"
    by (rule Split_not_Nil)
  then have "Suc 0 \<le> length (Split (tl (dropWhile (\<lambda>ch. ch \<noteq> sep) s)) sep)"
    by (cases "Split (tl (dropWhile (\<lambda>ch. ch \<noteq> sep) s)) sep") simp_all
  with True show ?thesis
    by (subst Split_unfold) simp
next
  case False
  then show ?thesis
    by (subst Split_unfold) simp
qed

lemma query_frame:
  "query env c owner name = (r, c1) \<Longrightarrow> c1 = c\<lparr>client := client c1\<rparr>"
  unfolding query_def
  by (auto split: prod.splits sum.splits githubv4_ID.splits list.splits option.splits)

lemma SaveReleases_frame:
  "SaveReleases env c = (e, c1) \<Longrightarrow> c1 = c\<lparr>disk := disk c1\<rparr>"
  unfolding SaveReleases_def
  by (auto split: prod.splits sum.splits option.splits)

lemma SaveReleases_snd:
  "snd (SaveReleases env c) = c\<lparr>disk := disk (snd (SaveReleases env c))\<rparr>"
  using SaveReleases_frame [of env c] by (cases "SaveReleases env c") auto

lemma SaveReleases_cong:
  assumes "releases c = releases d" "filepath c = filepath d" "disk c = disk d"
  shows "fst (SaveReleases env c) = fst (SaveReleases env d)"
    and "disk (snd (SaveReleases env c)) = disk (snd (SaveReleases env d))"
  using assms unfolding SaveReleases_def
  by (auto split: prod.splits sum.splits option.splits)

lemma SaveReleases_releases: "releases (snd (SaveReleases env c)) = releases c"
  by (subst SaveReleases_snd) simp

lemma Run_body_no_slash:
  "CHR ''/'' \<notin> set repoName \<Longrightarrow> Run_body env c repoName = Inl IndexOutOfRange"
  using Split_length [of repoName "CHR ''/''"] by (simp add: Run_body_def Let_def)

lemma Run_body_failed:
  assumes "Split repoName CHR ''/'' = owner # name # rest"
      and "query env c owner name = (Failed err, c1)"
  shows "Run_body env c repoName =
           Inr (Log Warn ''failed to query the repository's releases'' c1)"
  using assms by (simp add: Run_body_def Let_def)

lemma Run_body_panicked:
  assumes "Split repoName CHR ''/'' = owner # name # rest"
      and "query env c owner name = (Panicked p, c1)"
  shows "Run_body env c repoName = Inl p"
  using assms by (simp add: Run_body_def Let_def)

lemma query_fields:
  assumes "query env c owner name = (r, c1)"
  shows "releases c1 = releases c" "disk c1 = disk c" "chan c1 = chan c"
        "filepath c1 = filepath c" "logger c1 = logger c"
proof -
  let ?d = "c\<lparr>client := client c1\<rparr>"
  have eq: "c1 = ?d" by (rule query_frame [OF assms])
  have "releases c1 = releases ?d" by (rule arg_cong [OF eq])
  then show "releases c1 = releases c" by simp
  have "disk c1 = disk ?d" by (rule arg_cong [OF eq])
  then show "disk c1 = disk c" by simp
  have "chan c1 = chan ?d" by (rule arg_cong [OF eq])
  then show "chan c1 = chan c" by simp
  have "filepath c1 = filepath ?d" by (rule arg_cong [OF eq])
  then show "filepath c1 = filepath c" by simp
  have "logger c1 = logger ?d" by (rule arg_cong [OF eq])
  then show "logger c1 = logger c" by simp
qed

lemma Run_body_nil_map:
  assumes "Split repoName CHR ''/'' = owner # name # rest"
      and "query env c owner name = (Returned nextRepo, c1)"
      and "releases c = None"
  shows "Run_body env c repoName = Inl NilMapAssignment"
  using assms query_fields(1) [OF assms(2)] by (simp add: Run_body_def Let_def Log_def)

lemma Run_body_first:
  assumes "Split repoName CHR ''/'' = owner # name # rest"
      and "query env c owner name = (Returned nextRepo, c1)"
      and "releases c = Some m" and "m repoName = None"
  shows "Run_body env c repoName =
           (case SaveReleases env
                   ((Log Info ''repository checked'' c1)
                      \<lparr>releases := Some (m(repoName \<mapsto> nextRepo))\<rparr>) of
              (Some err, c3) \<Rightarrow> Inr (Log Error ''failed to save releases'' c3)
            | (None, c3) \<Rightarrow> Inr c3)"
  using assms query_fields(1) [OF assms(2)] by (simp add: Run_body_def Let_def Log_def)

lemma Run_body_newer:
  assumes "Split repoName CHR ''/'' = owner # name # rest"
      and "query env c owner name = (Returned nextRepo, c1)"
      and "releases c = Some m" and "m repoName = Some currRepo"
      and "After (Release.PublishedAt (Release nextRepo)) (Release.PublishedAt (Release currRepo))"
  shows "Run_body env c repoName =
           (case SaveReleases env
                   ((Log Info ''new release found'' (Log Info ''repository checked'' c1))
                      \<lparr>chan := chan c1 @ [nextRepo],
                        releases := Some (m(repoName \<mapsto> nextRepo))\<rparr>) of
              (Some err, c6) \<Rightarrow> Inr (Log Error ''failed to save releases'' c6)
            | (None, c6) \<Rightarrow> Inr c6)"
  using assms query_fields(1) [OF assms(2)] by (simp add: Run_body_def Let_def Log_def)

lemma Run_body_not_newer:
  assumes "Split repoName CHR ''/'' = owner # name # rest"
      and "query env c owner name = (Returned nextRepo, c1)"
      and "releases c = Some m" and "m repoName = Some currRepo"
      and "\<not> After (Release.PublishedAt (Release nextRepo)) (Release.PublishedAt (Release currRepo))"
  shows "Run_body env c repoName =
           Inr (Log Debug ''no new release for repository'' (Log Info ''repository checked'' c1))"
  using assms query_fields(1) [OF assms(2)] by (simp add: Run_body_def Let_def Log_def)

lemma Split_two:
  assumes "2 \<le> length (Split s sep)"
  obtains owner name rest where "Split s sep = owner # name # rest"
proof (cases "Split s sep")
  case Nil
  with assms show ?thesis by simp
next
  case (Cons a as)
  with assms that show ?thesis by (cases as) simp_all
qed

lemma SaveReleases_pair:
  "SaveReleases env c =
     (fst (SaveReleases env c), c\<lparr>disk := disk (snd (SaveReleases env c))\<rparr>)"
  using SaveReleases_snd [of env c] by (cases "SaveReleases env c") simp

text \<open>The outcome of a step that saves: the error of the save is logged, if any.\<close>

lemma Run_body_first_result:
  assumes "Split repoName CHR ''/'' = owner # name # rest"
      and "query env c owner name = (Returned nextRepo, c1)"
      and "releases c = Some m" and "m repoName = None"
  shows "\<exists>c'. Run_body env c repoName = Inr c' \<and>
           releases c' = Some (m(repoName \<mapsto> nextRepo)) \<and> chan c' = chan c \<and>
           client c' = client c1 \<and>
           disk c' = disk (snd (SaveReleases env (c\<lparr>releases := Some (m(repoName \<mapsto> nextRepo))\<rparr>))) \<and>
           (case fst (SaveReleases env (c\<lparr>releases := Some (m(repoName \<mapsto> nextRepo))\<rparr>)) of
              None \<Rightarrow> logger c' = logger c @ [(Info, ''repository checked'')]
            | Some err \<Rightarrow> logger c' = logger c @ [(Info, ''repository checked''),
                                                    (Error, ''failed to save releases'')])"
proof -
  let ?c3 = "(Log Info ''repository checked'' c1)\<lparr>releases := Some (m(repoName \<mapsto> nextRepo))\<rparr>"
  let ?d = "c\<lparr>releases := Some (m(repoName \<mapsto> nextRepo))\<rparr>"
  note q = query_fields [OF assms(2)]
  have f: "fst (SaveReleases env ?c3) = fst (SaveReleases env ?d)"
    by (rule SaveReleases_cong(1)) (simp_all add: Log_def q)
  have d: "disk (snd (SaveReleases env ?c3)) = disk (snd (SaveReleases env ?d))"
    by (rule SaveReleases_cong(2)) (simp_all add: Log_def q)
  have "Run_body env c repoName =
          (case fst (SaveReleases env ?c3) of
             Some err \<Rightarrow> Inr (Log Error ''failed to save releases''
                                (?c3\<lparr>disk := disk (snd (SaveReleases env ?c3))\<rparr>))
           | None \<Rightarrow> Inr (?c3\<lparr>disk := disk (snd (SaveReleases env ?c3))\<rparr>))"
    by (subst Run_body_first [OF assms], subst SaveReleases_pair) (simp split: option.splits)
  then show ?thesis
    unfolding f d using q by (cases "fst (SaveReleases env ?d)") (simp_all add: Log_def)
qed

lemma Run_body_newer_result:
  assumes "Split repoName CHR ''/'' = owner # name # rest"
      and "query env c owner name = (Returned nextRepo, c1)"
      and "releases c = Some m" and "m repoName = Some currRepo"
      and "After (Release.PublishedAt (Release nextRepo)) (Release.PublishedAt (Release currRepo))"
  shows "\<exists>c'. Run_body env c repoName = Inr c' \<and>
           releases c' = Some (m(repoName \<mapsto> nextRepo)) \<and> chan c' = chan c @ [nextRepo] \<and>
           client c' = client c1 \<and>
           disk c' = disk (snd (SaveReleases env (c\<lparr>releases := Some (m(repoName \<mapsto> nextRepo))\<rparr>))) \<and>
           (case fst (SaveReleases env (c\<lparr>releases := Some (m(repoName \<mapsto> nextRepo))\<rparr>)) of
              None \<Rightarrow> logger c' = logger c @ [(Info, ''repository checked''),
                                                (Info, ''new release found'')]
            | Some err \<Rightarrow> logger c' = logger c @ [(Info, ''repository checked''),
                                                    (Info, ''new release found''),
                                                    (Error, ''failed to save releases'')])"
proof -
  let ?c5 = "(Log Info ''new release found'' (Log Info ''repository checked'' c1))
               \<lparr>chan := chan c1 @ [nextRepo], releases := Some (m(repoName \<mapsto> nextRepo))\<rparr>"
  let ?d = "c\<lparr>releases := Some (m(repoName \<mapsto> nextRepo))\<rparr>"
  note q = query_fields [OF assms(2)]
  have f: "fst (SaveReleases env ?c5) = fst (SaveReleases env ?d)"
    by (rule SaveReleases_cong(1)) (simp_all add: Log_def q)
  have d: "disk (snd (SaveReleases env ?c5)) = disk (snd (SaveReleases env ?d))"
    by (rule SaveReleases_cong(2)) (simp_all add: Log_def q)
  have "Run_body env c repoName =
          (case fst (SaveReleases env ?c5) of
             Some err \<Rightarrow> Inr (Log Error ''failed to save releases''
                                (?c5\<lparr>disk := disk (snd (SaveReleases env ?c5))\<rparr>))
           | None \<Rightarrow> Inr (?c5\<lparr>disk := disk (snd (SaveReleases env ?c5))\<rparr>))"
    by (subst Run_body_newer [OF assms], subst SaveReleases_pair) (simp split: option.splits)
  then show ?thesis
    unfolding f d using q by (cases "fst (SaveReleases env ?d)") (simp_all add: Log_def)
qed

lemma Run_body_cases:
  assumes "Run_body env c repoName = Inr c'"
  obtains
    (failed) owner name rest err c1 where
      "Split repoName CHR ''/'' = owner # name # rest"
      "query env c owner name = (Failed err, c1)"
  | (first) owner name rest nextRepo c1 m where
      "Split repoName CHR ''/'' = owner # name # rest"
      "query env c owner name = (Returned nextRepo, c1)"
      "releases c = Some m" "m repoName = None"
  | (newer) owner name rest nextRepo c1 m currRepo where
      "Split repoName CHR ''/'' = owner # name # rest"
      "query env c owner name = (Returned nextRepo, c1)"
      "releases c = Some m" "m repoName = Some currRepo"
      "After (Release.PublishedAt (Release nextRepo)) (Release.PublishedAt (Release currRepo))"
  | (not_newer) owner name rest nextRepo c1 m currRepo where
      "Split repoName CHR ''/'' = owner # name # rest"
      "query env c owner name = (Returned nextRepo, c1)"
      "releases c = Some m" "m repoName = Some currRepo"
      "\<not> After (Release.PublishedAt (Release nextRepo)) (Release.PublishedAt (Release currRepo))"
proof -
  have "2 \<le> length (Split repoName CHR ''/'')"
    using assms by (auto simp: Run_body_def Let_def split: if_splits)
  then obtain owner name rest where sp: "Split repoName CHR ''/'' = owner # name # rest"
    by (rule Split_two)
  obtain r c1 where q: "query env c owner name = (r, c1)"
    by (cases "query env c owner name")
  show thesis
  proof (cases r)
    case (Panicked p)
    with q have "query env c owner name = (Panicked p, c1)" by simp
    from Run_body_panicked [OF sp this] assms show ?thesis by simp
  next
    case (Failed err)
    with sp q failed show ?thesis by simp
  next
    case (Returned nextRepo)
    with q have q': "query env c owner name = (Returned nextRepo, c1)" by simp
    show ?thesis
    proof (cases "releases c")
      case None
      from Run_body_nil_map [OF sp q' None] assms show ?thesis by simp
    next
      case (Some m)
      show ?thesis
      proof (cases "m repoName")
        case None
        with sp q' Some first show ?thesis by blast
      next
        case (Some currRepo)
        with sp q' \<open>releases c = Some m\<close> newer not_newer show ?thesis by blast
      qed
    qed
  qed
qed

lemma Run_cycle_append:
  "Run_cycle env (xs @ ys) c =
     (case Run_cycle env xs c of Inl p \<Rightarrow> Inl p | Inr c1 \<Rightarrow> Run_cycle env ys c1)"
  by (induction xs arbitrary: c) (auto split: sum.splits)

lemma query_releases_update:
  "query env (c\<lparr>releases := r\<rparr>) owner name =
     (fst (query env c owner name), (snd (query env c owner name))\<lparr>releases := r\<rparr>)"
  unfolding query_def
  by (auto split: prod.splits sum.splits githubv4_ID.splits list.splits option.splits)

lemma query_releases_update':
  assumes "query env c owner name = (r, c1)"
  shows "query env (c\<lparr>releases := x\<rparr>) owner name = (r, c1\<lparr>releases := x\<rparr>)"
  using query_releases_update [where env = env and c = c and r = x and owner = owner and name = name] assms by simp

lemma Run_body_not_newer_result:
  assumes "Split repoName CHR ''/'' = owner # name # rest"
      and "query env c owner name = (Returned nextRepo, c1)"
      and "releases c = Some m" and "m repoName = Some currRepo"
      and "\<not> After (Release.PublishedAt (Release nextRepo)) (Release.PublishedAt (Release currRepo))"
  shows "\<exists>c'. Run_body env c repoName = Inr c' \<and>
           releases c' = releases c \<and> chan c' = chan c \<and> client c' = client c1 \<and>
           disk c' = disk c"
  using Run_body_not_newer [OF assms] query_fields [OF assms(2)] by (simp add: Log_def)

lemma Run_body_failed_result:
  assumes "Split repoName CHR ''/'' = owner # name # rest"
      and "query env c owner name = (Failed err, c1)"
  shows "\<exists>c'. Run_body env c repoName = Inr c' \<and>
           releases c' = releases c \<and> chan c' = chan c \<and> client c' = client c1 \<and>
           disk c' = disk c"
  using Run_body_failed [OF assms] query_fields [OF assms(2)] by (simp add: Log_def)

lemma frame_other_keys:
  assumes "Run_body env c repoName = Inr c'" and "k \<noteq> repoName"
  shows "map_option (\<lambda>m. m k) (releases c') = map_option (\<lambda>m. m k) (releases c)"
  using assms(1)
proof (cases rule: Run_body_cases)
  case (failed owner name rest err c1)
  from Run_body_failed_result [OF failed] assms show ?thesis by auto
next
  case (first owner name rest nextRepo c1 m)
  from Run_body_first_result [OF first] assms first(3) show ?thesis by auto
next
  case (newer owner name rest nextRepo c1 m currRepo)
  from Run_body_newer_result [OF newer] assms newer(3) show ?thesis by auto
next
  case (not_newer owner name rest nextRepo c1 m currRepo)
  from Run_body_not_newer_result [OF not_newer] assms show ?thesis by auto
qed

lemma frame_failed_query:
  assumes "Run_body env c repoName = Inr c'"
      and "Split repoName CHR ''/'' = owner # name # rest"
      and "query env c owner name = (Failed err, c1)"
  shows "releases c' = releases c \<and> disk c' = disk c \<and> chan c' = chan c \<and>
         (\<forall>r. Run_body env (c\<lparr>releases := r\<rparr>) repoName = Inr (c'\<lparr>releases := r\<rparr>))"
proof -
  have c': "c' = Log Warn ''failed to query the repository's releases'' c1"
    using Run_body_failed [OF assms(2,3)] assms(1) by simp
  have "Run_body env (c\<lparr>releases := r\<rparr>) repoName = Inr (c'\<lparr>releases := r\<rparr>)" for r
    using Run_body_failed [OF assms(2) query_releases_update' [OF assms(3), where x = r]]
    by (simp add: c' Log_def)
  with c' query_fields [OF assms(3)] show ?thesis
    by (simp add: Log_def)
qed

lemma frame_only_own_entry:
  assumes "Run_body env c repoName = Inr c'"
      and "releases c = Some m" and "m2 repoName = m repoName"
  shows "\<exists>c2. Run_body env (c\<lparr>releases := Some m2\<rparr>) repoName = Inr c2 \<and>
           chan c2 = chan c' \<and> client c2 = client c' \<and>
           map_option (\<lambda>m. m repoName) (releases c2) = map_option (\<lambda>m. m repoName) (releases c')"
  using assms(1)
proof (cases rule: Run_body_cases)
  case (failed owner name rest err c1)
  from Run_body_failed_result [OF failed] assms(1)
    Run_body_failed_result [OF failed(1) query_releases_update' [OF failed(2), where x = "Some m2"]]
    assms(2,3)
  show ?thesis by auto
next
  case (first owner name rest nextRepo c1 m')
  with assms(2,3) have "releases (c\<lparr>releases := Some m2\<rparr>) = Some m2" "m2 repoName = None"
    by simp_all
  from Run_body_first_result [OF first] assms(1)
    Run_body_first_result [OF first(1) query_releases_update' [OF first(2)] this]
  show ?thesis by auto
next
  case (newer owner name rest nextRepo c1 m' currRepo)
  with assms(2,3) have "releases (c\<lparr>releases := Some m2\<rparr>) = Some m2" "m2 repoName = Some currRepo"
    by simp_all
  from Run_body_newer_result [OF newer] assms(1)
    Run_body_newer_result [OF newer(1) query_releases_update' [OF newer(2)] this newer(5)]
  show ?thesis by auto
next
  case (not_newer owner name rest nextRepo c1 m' currRepo)
  with assms(2,3) have "releases (c\<lparr>releases := Some m2\<rparr>) = Some m2" "m2 repoName = Some currRepo"
    by simp_all
  from Run_body_not_newer_result [OF not_newer] assms(1,2,3)
    Run_body_not_newer_result [OF not_newer(1) query_releases_update' [OF not_newer(2)] this not_newer(5)]
  show ?thesis by auto
qed

lemma query_panic:
  "query env c owner name = (Panicked p, c1) \<Longrightarrow> p = NilDereference"
  unfolding query_def
  by (auto split: prod.splits sum.splits githubv4_ID.splits list.splits option.splits)

lemma Run_body_with_slash:
  assumes "Split repoName CHR ''/'' = owner # name # rest"
  shows "Run_body env c repoName \<noteq> Inl IndexOutOfRange"
proof -
  obtain r c1 where q: "query env c owner name = (r, c1)"
    by (cases "query env c owner name")
  show ?thesis
  proof (cases r)
    case (Panicked p)
    with q have q': "query env c owner name = (Panicked p, c1)" by simp
    from query_panic [OF q'] Run_body_panicked [OF assms q'] show ?thesis by simp
  next
    case (Failed err)
    with q have "query env c owner name = (Failed err, c1)" by simp
    from Run_body_failed [OF assms this] show ?thesis by simp
  next
    case (Returned nextRepo)
    with q have q': "query env c owner name = (Returned nextRepo, c1)" by simp
    show ?thesis
    proof (cases "releases c")
      case None
      from Run_body_nil_map [OF assms q' None] show ?thesis by simp
    next
      case (Some m)
      show ?thesis
      proof (cases "m repoName")
        case None
        from Run_body_first_result [OF assms q' Some None] show ?thesis by auto
      next
        case (Some currRepo)
        show ?thesis
        proof (cases "After (Release.PublishedAt (Release nextRepo))
                            (Release.PublishedAt (Release currRepo))")
          case True
          from Run_body_newer_result [OF assms q' \<open>releases c = Some m\<close> Some True]
          show ?thesis by auto
        next
          case False
          from Run_body_not_newer [OF assms q' \<open>releases c = Some m\<close> Some False]
          show ?thesis by simp
        qed
      qed
    qed
  qed
qed

section \<open>The scenarios, evaluated\<close>

lemma Split_acme_widget: "Split ''acme/widget'' CHR ''/'' = [''acme'', ''widget'']"
  by simp

lemma Split_foo_bar: "Split ''foo/bar'' CHR ''/'' = [''foo'', ''bar'']"
  by simp

lemma query_serving_v100:
  "query mem_env (checker serving_v100 r) ''acme'' ''widget'' =
     (Returned v100, checker serving_v100 r)"
  by (simp add: query_def mem_env_def mem_Query_def serving_v100_def serving_def response_def
      v100_def snapshot_def checker_def)

lemma query_serving_v110:
  "query mem_env (checker serving_v110 r) ''acme'' ''widget'' =
     (Returned v110, checker serving_v110 r)"
  by (simp add: query_def mem_env_def mem_Query_def serving_v110_def serving_def response_def
      v110_def snapshot_def checker_def)

lemma SaveReleases_mem:
  "SaveReleases mem_env c =
     (None, c\<lparr>disk := (disk c)(filepath c \<mapsto>
        map_option (\<lambda>m. List.map_filter (\<lambda>k. map_option (Pair k) (m k)) watched) (releases c))\<rparr>)"
  by (simp add: SaveReleases_def mem_env_def mem_MarshalIndent_def mem_WriteFile_def)

lemma query_serving_v100_rofs:
  "query rofs_env (checker serving_v100 r) ''acme'' ''widget'' =
     (Returned v100, checker serving_v100 r)"
  by (simp add: query_def rofs_env_def mem_env_def mem_Query_def serving_v100_def serving_def
      response_def v100_def snapshot_def checker_def)

lemma SaveReleases_rofs:
  "SaveReleases rofs_env c = (Some (Wrap ''failed to write releases file: %w'' (Foreign 30)), c)"
  by (simp add: SaveReleases_def rofs_env_def mem_env_def mem_MarshalIndent_def)

lemma Run_body_scenario1:
  "Run_body mem_env scenario1_start ''acme/widget'' = Inr scenario1_done"
proof -
  have a: "releases scenario1_start = Some Map.empty"
    by (simp add: scenario1_start_def checker_def)
  have q: "query mem_env scenario1_start ''acme'' ''widget'' = (Returned v100, scenario1_start)"
    unfolding scenario1_start_def by (rule query_serving_v100)
  show ?thesis
    by (subst Run_body_first [OF Split_acme_widget q a])
      (simp_all add: SaveReleases_mem Log_def scenario1_done_def scenario1_start_def checker_def
        watched_def map_filter_def)
qed

lemma query_scenario4_widget:
  "query mem_env (scenario4_start\<lparr>releases := r\<rparr>) ''acme'' ''widget'' =
     (Failed (Errorf ''can't find any releases for %s/%s'' [VString ''acme'', VString ''widget'']),
      scenario4_start\<lparr>releases := r\<rparr>)"
  by (simp add: query_def mem_env_def mem_Query_def serving_scenario4_def response_def
      scenario4_start_def checker_def)

lemma query_scenario4_bar:
  "query mem_env scenario4_failed ''foo'' ''bar'' = (Returned bar2, scenario4_failed)"
  by (simp add: query_def mem_env_def mem_Query_def serving_scenario4_def response_def
      scenario4_failed_def scenario4_start_def checker_def bar2_def snapshot_def)

lemma Run_body_scenario4_widget:
  "Run_body mem_env (scenario4_start\<lparr>releases := r\<rparr>) ''acme/widget'' =
     Inr (scenario4_failed\<lparr>releases := r\<rparr>)"
  by (subst Run_body_failed [OF Split_acme_widget query_scenario4_widget])
    (simp add: Log_def scenario4_failed_def scenario4_start_def checker_def)

lemma query_scenario4_start:
  "query mem_env scenario4_start ''acme'' ''widget'' =
     (Failed (Errorf ''can't find any releases for %s/%s'' [VString ''acme'', VString ''widget'']),
      scenario4_start)"
  using query_scenario4_widget [of "releases scenario4_start"] by simp

lemma Run_body_scenario4_start:
  "Run_body mem_env scenario4_start ''acme/widget'' = Inr scenario4_failed"
  using Run_body_scenario4_widget [of "releases scenario4_start"]
  by (simp add: scenario4_failed_def)

lemma Query_serving:
  "Query mem_env (client (checker (serving owner name q) r)) owner name =
     (Inr q, serving owner name q)"
  by (simp add: mem_env_def mem_Query_def serving_def checker_def)

lemma LoadReleases_null_start: "LoadReleases mem_env null_start = (None, null_start)"
  by (simp add: LoadReleases_def mem_env_def mem_ReadFile_def mem_Unmarshal_def null_start_def
      checker_def)

lemma Run_init_null_start: "Run_init mem_env null_start = null_start"
  by (simp add: Run_init_def LoadReleases_null_start)

lemma query_null_start:
  "query mem_env null_start ''acme'' ''widget'' = (Returned v100, null_start)"
  by (simp add: query_def mem_env_def mem_Query_def serving_v100_def serving_def response_def
      v100_def snapshot_def checker_def null_start_def)

lemma releases_null_start: "releases null_start = None"
  by (simp add: null_start_def checker_def)

section \<open>The step on a map that is not nil, and on a key with a separator\<close>

text \<open>
  On a map that is not nil, the step for an absent key whose query returns a snapshot
  completes, stores the snapshot under the key, saves the updated state and sends nothing
  on the channel, whatever the \<^verbatim>\<open>PublishedAt\<close> of the snapshot.
\<close>

lemma first_observation_on_map:
  assumes "Split repoName CHR ''/'' = owner # name # rest"
      and "query env c owner name = (Returned nextRepo, c1)"
      and "releases c = Some m" and "m repoName = None"
  shows "\<exists>c'. Run_body env c repoName = Inr c' \<and>
           releases c' = Some (m(repoName \<mapsto> nextRepo)) \<and>
           disk c' = disk (snd (SaveReleases env (c\<lparr>releases := Some (m(repoName \<mapsto> nextRepo))\<rparr>))) \<and>
           chan c' = chan c"
  using Run_body_first_result [OF assms] by blast

lemma first_observation_on_map_scenario1:
  "\<exists>c'. Run_body mem_env (checker serving_v100 (Some Map.empty)) ''acme/widget'' = Inr c' \<and>
         releases c' = Some [''acme/widget'' \<mapsto> v100] \<and>
         disk c' = [''releases.json'' \<mapsto> Some [(''acme/widget'', v100)]] \<and>
         chan c' = []"
proof -
  have a: "releases (checker serving_v100 (Some Map.empty)) = Some Map.empty"
    by (simp add: checker_def)
  have b: "(Map.empty :: string \<rightharpoonup> Repository) ''acme/widget'' = None"
    by simp
  show ?thesis
    using first_observation_on_map [OF Split_acme_widget query_serving_v100 a b]
    by (simp add: SaveReleases_mem checker_def watched_def map_filter_def)
qed

text \<open>
  For a key that contains a \<^verbatim>\<open>/\<close>, the step takes the text before the first \<^verbatim>\<open>/\<close> as the
  owner and the text between the first and the second \<^verbatim>\<open>/\<close> (or up to the end) as the
  name. Neither is checked to be non-empty and what follows a second \<^verbatim>\<open>/\<close> is ignored.
  Taking the two pieces is not out of range, and when the query fails the step logs the
  warning and completes.
\<close>

lemma key_with_separator:
  assumes "CHR ''/'' \<in> set repoName"
  shows "\<exists>owner name rest.
           Split repoName CHR ''/'' = owner # name # rest \<and>
           owner = takeWhile (\<lambda>ch. ch \<noteq> CHR ''/'') repoName \<and>
           name = takeWhile (\<lambda>ch. ch \<noteq> CHR ''/'')
                    (tl (dropWhile (\<lambda>ch. ch \<noteq> CHR ''/'') repoName)) \<and>
           Run_body env c repoName \<noteq> Inl IndexOutOfRange \<and>
           (\<forall>err c1. query env c owner name = (Failed err, c1) \<longrightarrow>
              Run_body env c repoName
                = Inr (Log Warn ''failed to query the repository's releases'' c1))"
proof -
  let ?t = "tl (dropWhile (\<lambda>ch. ch \<noteq> CHR ''/'') repoName)"
  have 1: "Split repoName CHR ''/'' = takeWhile (\<lambda>ch. ch \<noteq> CHR ''/'') repoName # Split ?t CHR ''/''"
    using assms by (subst Split_unfold) simp
  have 2: "Split ?t CHR ''/'' =
             takeWhile (\<lambda>ch. ch \<noteq> CHR ''/'') ?t #
               (if CHR ''/'' \<in> set ?t
                then Split (tl (dropWhile (\<lambda>ch. ch \<noteq> CHR ''/'') ?t)) CHR ''/'' else [])"
    by (rule Split_unfold)
  from 1 2 obtain rest where
    sp: "Split repoName CHR ''/'' =
           takeWhile (\<lambda>ch. ch \<noteq> CHR ''/'') repoName # takeWhile (\<lambda>ch. ch \<noteq> CHR ''/'') ?t # rest"
    by simp
  from Run_body_with_slash [OF sp] Run_body_failed [OF sp] sp show ?thesis
    by blast
qed

lemma key_with_separator_examples:
  "Split ''/'' CHR ''/'' = ['''', ''''] \<and>
   Split ''acme/widget/extra'' CHR ''/'' = [''acme'', ''widget'', ''extra''] \<and>
   Run_body mem_env scenario1_start ''/'' \<noteq> Inl IndexOutOfRange \<and>
   Run_body mem_env scenario1_start ''/''
     = Inr (Log Warn ''failed to query the repository's releases'' scenario1_start)"
proof -
  have a: "CHR ''/'' \<in> set ''/''" by simp
  have q: "query mem_env scenario1_start '''' '''' = (Failed (Foreign 404), scenario1_start)"
    by (simp add: query_def mem_env_def mem_Query_def scenario1_start_def serving_v100_def
        serving_def checker_def)
  from key_with_separator [OF a, of mem_env scenario1_start] q show ?thesis
    by auto
qed

section \<open>The claims\<close>

text \<open>
  Claim C1 (strict monotonicity). A key is in the in-memory map with a stored snapshot, and
  the query of one step returns a snapshot. If the instant of its \<^verbatim>\<open>PublishedAt\<close> is not
  after the stored one, the step completes, sends nothing on the channel and leaves the
  map and the file system as they were. If it is after, the step completes, sends exactly
  that snapshot and stores it under the key.
\<close>

theorem strict_monotonicity:
  assumes "Split repoName CHR ''/'' = owner # name # rest"
      and "query env c owner name = (Returned nextRepo, c1)"
      and "releases c = Some m" and "m repoName = Some currRepo"
  shows "\<exists>c'. Run_body env c repoName = Inr c' \<and>
           (if unixNano (Release.PublishedAt (Release nextRepo))
                 \<le> unixNano (Release.PublishedAt (Release currRepo))
            then chan c' = chan c \<and> releases c' = releases c \<and> disk c' = disk c
            else chan c' = chan c @ [nextRepo] \<and>
                 releases c' = Some (m(repoName \<mapsto> nextRepo)))"
proof (cases "After (Release.PublishedAt (Release nextRepo)) (Release.PublishedAt (Release currRepo))")
  case False
  then have le: "unixNano (Release.PublishedAt (Release nextRepo))
                   \<le> unixNano (Release.PublishedAt (Release currRepo))"
    by (simp add: After_def)
  have "Run_body env c repoName =
          Inr (Log Debug ''no new release for repository'' (Log Info ''repository checked'' c1))"
    by (rule Run_body_not_newer [OF assms False])
  with le assms(3) query_fields [OF assms(2)] show ?thesis
    by (simp add: Log_def)
next
  case True
  then have gt: "\<not> unixNano (Release.PublishedAt (Release nextRepo))
                   \<le> unixNano (Release.PublishedAt (Release currRepo))"
    by (simp add: After_def)
  let ?c5 = "(Log Info ''new release found'' (Log Info ''repository checked'' c1))
               \<lparr>chan := chan c1 @ [nextRepo], releases := Some (m(repoName \<mapsto> nextRepo))\<rparr>"
  obtain e c6 where save: "SaveReleases env ?c5 = (e, c6)"
    by (cases "SaveReleases env ?c5")
  have c6: "c6 = ?c5\<lparr>disk := disk c6\<rparr>"
    by (rule SaveReleases_frame [OF save])
  have "chan c6 = chan (?c5\<lparr>disk := disk c6\<rparr>)" by (rule arg_cong [OF c6])
  then have ch: "chan c6 = chan c @ [nextRepo]"
    using query_fields(3) [OF assms(2)] by simp
  have "releases c6 = releases (?c5\<lparr>disk := disk c6\<rparr>)" by (rule arg_cong [OF c6])
  then have rl: "releases c6 = Some (m(repoName \<mapsto> nextRepo))" by simp
  have "Run_body env c repoName =
          (case e of Some err \<Rightarrow> Inr (Log Error ''failed to save releases'' c6) | None \<Rightarrow> Inr c6)"
    using Run_body_newer [OF assms True] save by (simp split: option.splits)
  with gt ch rl show ?thesis
    by (cases e) (simp_all add: Log_def)
qed

theorem strict_monotonicity_witness:
  "(\<exists>c'. Run_body mem_env (checker serving_v110 (Some [''acme/widget'' \<mapsto> v100])) ''acme/widget''
            = Inr c' \<and>
          chan c' = [v110] \<and> releases c' = Some [''acme/widget'' \<mapsto> v110]) \<and>
   (\<exists>c'. Run_body mem_env (checker serving_v110 (Some [''acme/widget'' \<mapsto> v110])) ''acme/widget''
            = Inr c' \<and>
          chan c' = [] \<and> releases c' = Some [''acme/widget'' \<mapsto> v110] \<and> disk c' = Map.empty)"
proof -
  let ?old = "[''acme/widget'' \<mapsto> v100]" and ?new = "[''acme/widget'' \<mapsto> v110]"
  have a: "releases (checker serving_v110 (Some ?old)) = Some ?old"
    and b: "releases (checker serving_v110 (Some ?new)) = Some ?new"
    by (simp_all add: checker_def)
  have a': "?old ''acme/widget'' = Some v100" and b': "?new ''acme/widget'' = Some v110"
    by simp_all
  show ?thesis
    using strict_monotonicity [where m = ?old, OF Split_acme_widget query_serving_v110 a a']
      strict_monotonicity [where m = ?new, OF Split_acme_widget query_serving_v110 b b']
    by (simp add: v100_def v110_def snapshot_def checker_def)
qed

text \<open>
  Claim C2 (baseline). The claim asks that the first successful query for a key absent
  from the in-memory state stores the snapshot, saves and sends nothing. \<^verbatim>\<open>Run\<close> does not
  do so when the state file holds the encoding of a nil map: \<^verbatim>\<open>LoadReleases\<close> returns no
  error and leaves the map nil, \<^verbatim>\<open>Run\<close> makes a map only when the load fails, the key is
  absent, the query returns the snapshot, and the assignment that should store it panics.
  The first cycle of \<^verbatim>\<open>Run\<close> on the watch list \<^verbatim>\<open>acme/widget\<close> ends in that panic.
\<close>

theorem first_observation_on_nil_map:
  "LoadReleases mem_env null_start = (None, null_start) \<and>
   releases null_start = None \<and>
   query mem_env null_start ''acme'' ''widget'' = (Returned v100, null_start) \<and>
   Run_body mem_env null_start ''acme/widget'' = Inl NilMapAssignment \<and>
   Run mem_env 1 [''acme/widget''] null_start = Inl NilMapAssignment"
proof -
  have b: "Run_body mem_env null_start ''acme/widget'' = Inl NilMapAssignment"
    by (rule Run_body_nil_map [OF Split_acme_widget query_null_start releases_null_start])
  have "Run mem_env (Suc 0) [''acme/widget''] null_start = Inl NilMapAssignment"
    by (simp add: Run_def Run_init_null_start b)
  with b LoadReleases_null_start releases_null_start query_null_start show ?thesis
    by simp
qed

text \<open>
  Claim C3 (keys). The claim asks that a key not of the form \<^verbatim>\<open>owner/name\<close> never causes a
  runtime error inside the cycle loop. The key \<^verbatim>\<open>widget\<close> splits into one piece only, and
  the step that processes it panics with an index out of range when it takes the second
  piece; the panic ends the cycle before the well-formed key that follows is processed,
  and ends \<^verbatim>\<open>Run\<close>.
\<close>

theorem key_without_slash_panics:
  "Split ''widget'' CHR ''/'' = [''widget''] \<and>
   Run_body mem_env scenario1_start ''widget'' = Inl IndexOutOfRange \<and>
   Run_cycle mem_env [''widget'', ''acme/widget''] scenario1_start = Inl IndexOutOfRange \<and>
   Run mem_env 1 [''widget'', ''acme/widget''] scenario1_start = Inl IndexOutOfRange"
proof -
  have b: "Run_body mem_env scenario1_start ''widget'' = Inl IndexOutOfRange"
    by (simp add: Run_body_def)
  have i: "Run_init mem_env scenario1_start = scenario1_start"
    by (simp add: Run_init_def scenario1_start_def checker_def)
  have "Run mem_env (Suc 0) [''widget'', ''acme/widget''] scenario1_start = Inl IndexOutOfRange"
    by (simp add: Run_def i b)
  with b show ?thesis by simp
qed

text \<open>
  Claim C4 (isolation). When the query for a key of the watch list fails, with whatever
  error, the cycle goes on: the cycle over the whole list is the cycle over the keys that
  follow, run from the state in which only the warning has been logged (the map, the file
  system and the channel are those before the failed query). So the later keys are
  queried and can send, as in scenario 4.
\<close>

theorem failure_isolation:
  assumes "Run_cycle env before c = Inr c0"
      and "Split repoName CHR ''/'' = owner # name # rest"
      and "query env c0 owner name = (Failed err, c1)"
  shows "Run_cycle env (before @ repoName # later) c =
           Run_cycle env later (Log Warn ''failed to query the repository's releases'' c1) \<and>
         releases c1 = releases c0 \<and> disk c1 = disk c0 \<and> chan c1 = chan c0"
  using assms Run_body_failed [OF assms(2,3)] query_fields [OF assms(3)]
  by (simp add: Run_cycle_append)

theorem failure_isolation_witness:
  "\<exists>c'. Run_cycle mem_env [''acme/widget'', ''foo/bar''] scenario4_start = Inr c' \<and>
         chan c' = [bar2] \<and> releases c' = Some [''foo/bar'' \<mapsto> bar2]"
proof -
  note q = query_scenario4_start
  have s: "Run_cycle mem_env [] scenario4_start = Inr scenario4_start"
    by simp
  have l: "Log Warn ''failed to query the repository's releases'' scenario4_start = scenario4_failed"
    by (simp add: Log_def scenario4_failed_def scenario4_start_def checker_def)
  have r: "releases scenario4_failed = Some [''foo/bar'' \<mapsto> bar1]"
    by (simp add: scenario4_failed_def scenario4_start_def checker_def)
  have b: "[''foo/bar'' \<mapsto> bar1] ''foo/bar'' = Some bar1"
    by simp
  have a: "After (Release.PublishedAt (Release bar2)) (Release.PublishedAt (Release bar1))"
    by (simp add: After_def bar1_def bar2_def snapshot_def)
  from Run_body_newer_result [OF Split_foo_bar query_scenario4_bar r b a]
  obtain c' where c': "Run_body mem_env scenario4_failed ''foo/bar'' = Inr c'"
    "releases c' = Some ([''foo/bar'' \<mapsto> bar1](''foo/bar'' \<mapsto> bar2))"
    "chan c' = chan scenario4_failed @ [bar2]"
    by blast
  have "chan scenario4_failed = []"
    by (simp add: scenario4_failed_def scenario4_start_def checker_def)
  with c' have "Run_body mem_env scenario4_failed ''foo/bar'' = Inr c'"
    "releases c' = Some [''foo/bar'' \<mapsto> bar2]" "chan c' = [bar2]"
    by simp_all
  with failure_isolation [OF s Split_acme_widget q, of "[''foo/bar'']"] l show ?thesis
    by simp
qed

text \<open>
  Claim C6 (loading). When reading the file fails, \<^verbatim>\<open>LoadReleases\<close> returns no error exactly
  when the failure is that the file does not exist, and the state is then the empty map;
  any other read failure, and any failure to decode, is returned as an error. Otherwise
  the state is what the file decodes to. When the load that \<^verbatim>\<open>Run\<close> makes on a nil map fails,
  \<^verbatim>\<open>Run\<close> logs the error and goes on into its loop with an empty map.
\<close>

theorem load_failures:
  "(\<forall>err. ReadFile env (disk c) (filepath c) = Inl err \<longrightarrow>
      (fst (LoadReleases env c) = None) = IsNotExist env err \<and>
      (IsNotExist env err \<longrightarrow> LoadReleases env c = (None, c\<lparr>releases := Some Map.empty\<rparr>)) \<and>
      (\<not> IsNotExist env err \<longrightarrow>
         LoadReleases env c = (Some (Wrap ''failed to read releases file: %w'' err), c))) \<and>
   (\<forall>data err r. ReadFile env (disk c) (filepath c) = Inr data \<and>
      Unmarshal env data (releases c) = (Some err, r) \<longrightarrow>
      fst (LoadReleases env c) = Some (Wrap ''failed to unmarshal releases: %w'' err)) \<and>
   (\<forall>data r. ReadFile env (disk c) (filepath c) = Inr data \<and>
      Unmarshal env data (releases c) = (None, r) \<longrightarrow>
      LoadReleases env c = (None, c\<lparr>releases := r\<rparr>)) \<and>
   (releases c = None \<and> fst (LoadReleases env c) \<noteq> None \<longrightarrow>
      releases (Run_init env c) = Some Map.empty \<and>
      last (logger (Run_init env c)) = (Error, ''failed to load releases'') \<and>
      disk (Run_init env c) = disk c \<and> chan (Run_init env c) = chan c \<and>
      Run env n repositories c = Run_loop env n repositories (Run_init env c))"
proof -
  have frame: "disk (snd (LoadReleases env c)) = disk c \<and> chan (snd (LoadReleases env c)) = chan c"
    unfolding LoadReleases_def by (auto split: sum.splits prod.splits option.splits)
  have init: "releases (Run_init env c) = Some Map.empty \<and>
      last (logger (Run_init env c)) = (Error, ''failed to load releases'') \<and>
      disk (Run_init env c) = disk c \<and> chan (Run_init env c) = chan c"
    if a: "releases c = None" and b: "fst (LoadReleases env c) \<noteq> None"
  proof -
    obtain err c1 where l: "LoadReleases env c = (Some err, c1)"
      using b by (cases "LoadReleases env c") auto
    with frame have "disk c1 = disk c" "chan c1 = chan c" by simp_all
    with l a show ?thesis by (simp add: Run_init_def Log_def)
  qed
  show ?thesis
    by (intro conjI allI impI; (elim conjE)?)
      (auto simp: LoadReleases_def Run_def init split: option.splits)
qed

theorem load_failures_witness:
  "LoadReleases mem_env (checker serving_v100 None) = (None, checker serving_v100 (Some Map.empty)) \<and>
   LoadReleases noperm_env (checker serving_v100 None)
     = (Some (Wrap ''failed to read releases file: %w'' (Foreign 13)), checker serving_v100 None) \<and>
   fst (LoadReleases badjson_env restarted)
     = Some (Wrap ''failed to unmarshal releases: %w'' (Foreign 1)) \<and>
   LoadReleases mem_env restarted = (None, restarted\<lparr>releases := Some [''acme/widget'' \<mapsto> v100]\<rparr>) \<and>
   releases (Run_init noperm_env (checker serving_v100 None)) = Some Map.empty \<and>
   Run noperm_env 1 [''acme/widget''] (checker serving_v100 None)
     = Run_loop noperm_env 1 [''acme/widget''] (Run_init noperm_env (checker serving_v100 None))"
proof -
  let ?c = "checker serving_v100 None"
  have r1: "ReadFile mem_env (disk ?c) (filepath ?c) = Inl (Foreign 2)"
    by (simp add: mem_env_def mem_ReadFile_def checker_def)
  have r2: "ReadFile noperm_env (disk ?c) (filepath ?c) = Inl (Foreign 13)"
    by (simp add: noperm_env_def mem_env_def checker_def)
  have r3: "ReadFile badjson_env (disk restarted) (filepath restarted)
              = Inr (Some [(''acme/widget'', v100)]) \<and>
            Unmarshal badjson_env (Some [(''acme/widget'', v100)]) (releases restarted)
              = (Some (Foreign 1), None)"
    by (simp add: badjson_env_def mem_env_def mem_ReadFile_def restarted_def checker_def)
  have r4: "ReadFile mem_env (disk restarted) (filepath restarted)
              = Inr (Some [(''acme/widget'', v100)]) \<and>
            Unmarshal mem_env (Some [(''acme/widget'', v100)]) (releases restarted)
              = (None, Some [''acme/widget'' \<mapsto> v100])"
    by (simp add: mem_env_def mem_ReadFile_def mem_Unmarshal_def restarted_def checker_def)
  have i1: "IsNotExist mem_env (Foreign 2)" and i2: "\<not> IsNotExist noperm_env (Foreign 13)"
    by (simp_all add: mem_env_def noperm_env_def)
  note L = load_failures [where n = 1 and repositories = "[''acme/widget'']"]
  have 1: "LoadReleases mem_env ?c = (None, ?c\<lparr>releases := Some Map.empty\<rparr>)"
    using L [where env = mem_env and c = ?c, THEN conjunct1, THEN spec, THEN mp, OF r1] i1
    by simp
  have 2: "LoadReleases noperm_env ?c
             = (Some (Wrap ''failed to read releases file: %w'' (Foreign 13)), ?c)"
    using L [where env = noperm_env and c = ?c, THEN conjunct1, THEN spec, THEN mp, OF r2] i2
    by simp
  have 3: "fst (LoadReleases badjson_env restarted)
             = Some (Wrap ''failed to unmarshal releases: %w'' (Foreign 1))"
    by (rule L [where env = badjson_env and c = restarted, THEN conjunct2, THEN conjunct1,
          THEN spec, THEN spec, THEN spec, THEN mp, OF r3])
  have 4: "LoadReleases mem_env restarted
             = (None, restarted\<lparr>releases := Some [''acme/widget'' \<mapsto> v100]\<rparr>)"
    by (rule L [where env = mem_env and c = restarted, THEN conjunct2, THEN conjunct2,
          THEN conjunct1, THEN spec, THEN spec, THEN mp, OF r4])
  have h5: "releases ?c = None \<and> fst (LoadReleases noperm_env ?c) \<noteq> None"
    using 2 by (simp add: checker_def)
  note 5 = L [where env = noperm_env and c = ?c, THEN conjunct2, THEN conjunct2,
          THEN conjunct2, THEN mp, OF h5]
  from 1 2 3 4 5 show ?thesis
    by (simp add: checker_def)
qed

text \<open>
  Claim C7 (no rollback). The step updates the map (the key was absent, or the snapshot
  returned is newer than the stored one) and the save that follows fails. The step still
  completes, the map keeps the new entry, the failure is logged, and the cycle goes on
  with the keys that follow, from that state. \<^verbatim>\<open>SaveReleases\<close> itself never changes the map.
\<close>

theorem save_failure_keeps_memory:
  assumes "Split repoName CHR ''/'' = owner # name # rest"
      and "query env c owner name = (Returned nextRepo, c1)"
      and "releases c = Some m"
      and "m repoName = None \<or>
           (\<exists>currRepo. m repoName = Some currRepo \<and>
              After (Release.PublishedAt (Release nextRepo)) (Release.PublishedAt (Release currRepo)))"
      and "fst (SaveReleases env (c\<lparr>releases := Some (m(repoName \<mapsto> nextRepo))\<rparr>)) = Some err"
  shows "\<exists>c'. Run_body env c repoName = Inr c' \<and>
           releases c' = Some (m(repoName \<mapsto> nextRepo)) \<and>
           last (logger c') = (Error, ''failed to save releases'') \<and>
           Run_cycle env (repoName # later) c = Run_cycle env later c' \<and>
           releases (snd (SaveReleases env c')) = releases c'"
proof -
  from assms(4) obtain c' where
    "Run_body env c repoName = Inr c' \<and> releases c' = Some (m(repoName \<mapsto> nextRepo)) \<and>
     last (logger c') = (Error, ''failed to save releases'')"
  proof
    assume "m repoName = None"
    from Run_body_first_result [OF assms(1,2,3) this] assms(5) that show ?thesis
      by auto
  next
    assume "\<exists>currRepo. m repoName = Some currRepo \<and>
              After (Release.PublishedAt (Release nextRepo)) (Release.PublishedAt (Release currRepo))"
    then obtain currRepo where "m repoName = Some currRepo"
      "After (Release.PublishedAt (Release nextRepo)) (Release.PublishedAt (Release currRepo))"
      by blast
    from Run_body_newer_result [OF assms(1,2,3) this] assms(5) that show ?thesis
      by auto
  qed
  then show ?thesis
    by (auto simp: SaveReleases_releases)
qed

theorem save_failure_keeps_memory_witness:
  "\<exists>c'. Run_body rofs_env (checker serving_v100 (Some Map.empty)) ''acme/widget'' = Inr c' \<and>
         releases c' = Some [''acme/widget'' \<mapsto> v100] \<and> disk c' = Map.empty \<and>
         last (logger c') = (Error, ''failed to save releases'') \<and>
         Run_cycle rofs_env [''acme/widget'', ''foo/bar''] (checker serving_v100 (Some Map.empty))
           = Run_cycle rofs_env [''foo/bar''] c'"
proof -
  let ?c = "checker serving_v100 (Some Map.empty)"
  have a: "releases ?c = Some Map.empty"
    by (simp add: checker_def)
  have b: "(Map.empty :: string \<rightharpoonup> Repository) ''acme/widget'' = None \<or>
           (\<exists>currRepo. (Map.empty :: string \<rightharpoonup> Repository) ''acme/widget'' = Some currRepo \<and>
              After (Release.PublishedAt (Release v100)) (Release.PublishedAt (Release currRepo)))"
    by simp
  have s: "fst (SaveReleases rofs_env (?c\<lparr>releases := Some [''acme/widget'' \<mapsto> v100]\<rparr>))
             = Some (Wrap ''failed to write releases file: %w'' (Foreign 30))"
    by (simp add: SaveReleases_rofs)
  have d: "disk c' = Map.empty"
    if "Run_body rofs_env ?c ''acme/widget'' = Inr c'" for c'
    using that Run_body_first [OF Split_acme_widget query_serving_v100_rofs a]
    by (auto simp: SaveReleases_rofs Log_def checker_def)
  show ?thesis
    using save_failure_keeps_memory [OF Split_acme_widget query_serving_v100_rofs a b s,
        of "[''foo/bar'']"] d
    by auto
qed

text \<open>
  Claim C8 (write-through). Whenever a completed step has changed the in-memory map, the
  change is the entry of the key of the step, and the file system after the step is the
  one that \<^verbatim>\<open>SaveReleases\<close> leaves when called on the whole updated map: the save is
  attempted within the step, and the loop takes the next key from the state that the
  step leaves. When that save fails, the last thing the step does is to log the failure.
\<close>

theorem write_through:
  assumes "Run_body env c repoName = Inr c'" and "releases c' \<noteq> releases c"
  shows "(\<exists>m nextRepo. releases c = Some m \<and> releases c' = Some (m(repoName \<mapsto> nextRepo))) \<and>
         disk c' = disk (snd (SaveReleases env (c\<lparr>releases := releases c'\<rparr>))) \<and>
         (fst (SaveReleases env (c\<lparr>releases := releases c'\<rparr>)) \<noteq> None \<longrightarrow>
            last (logger c') = (Error, ''failed to save releases'')) \<and>
         Run_cycle env (repoName # later) c = Run_cycle env later c'"
proof -
  have saved:
    "(\<exists>m nextRepo. releases c = Some m \<and> releases c' = Some (m(repoName \<mapsto> nextRepo))) \<and>
     disk c' = disk (snd (SaveReleases env (c\<lparr>releases := releases c'\<rparr>))) \<and>
     (fst (SaveReleases env (c\<lparr>releases := releases c'\<rparr>)) \<noteq> None \<longrightarrow>
        last (logger c') = (Error, ''failed to save releases''))"
    using assms(1)
  proof (cases rule: Run_body_cases)
    case (failed owner name rest err c1)
    from Run_body_failed [OF failed] assms query_fields(1) [OF failed(2)] show ?thesis
      by (simp add: Log_def)
  next
    case (first owner name rest nextRepo c1 m)
    from Run_body_first_result [OF first] assms(1) first(3) show ?thesis
      by (auto split: option.splits)
  next
    case (newer owner name rest nextRepo c1 m currRepo)
    from Run_body_newer_result [OF newer] assms(1) newer(3) show ?thesis
      by (auto split: option.splits)
  next
    case (not_newer owner name rest nextRepo c1 m currRepo)
    from Run_body_not_newer [OF not_newer] assms query_fields(1) [OF not_newer(2)] show ?thesis
      by (simp add: Log_def)
  qed
  have "Run_cycle env (repoName # later) c = Run_cycle env later c'"
    using assms(1) by simp
  with saved show ?thesis by blast
qed

theorem write_through_witness:
  "Run_body mem_env scenario1_start ''acme/widget'' = Inr scenario1_done \<and>
   releases scenario1_start = Some Map.empty \<and>
   releases scenario1_done = Some [''acme/widget'' \<mapsto> v100] \<and>
   disk scenario1_done = [''releases.json'' \<mapsto> Some [(''acme/widget'', v100)]] \<and>
   disk scenario1_done =
     disk (snd (SaveReleases mem_env (scenario1_start\<lparr>releases := releases scenario1_done\<rparr>)))"
proof -
  have neq: "releases scenario1_done \<noteq> releases scenario1_start"
    by (simp add: scenario1_done_def scenario1_start_def checker_def)
  show ?thesis
    using write_through [OF Run_body_scenario1 neq] Run_body_scenario1
    by (simp add: scenario1_done_def scenario1_start_def checker_def)
qed

text \<open>
  Claim C9 (errors of the query). When the client has answered, \<^verbatim>\<open>query\<close> returns an error,
  not a snapshot, whenever the answer has no release, or the identifier of the repository
  is not a string, or the identifier of the first release is not a string. Whenever it
  returns a snapshot, that snapshot is the translation of the repository and of its first
  release, with the owner that was asked for.
\<close>

theorem query_errors:
  assumes "Query env (client c) owner name = (Inr q, net)"
  shows "(Edges q = [] \<or> (\<forall>s. query_Repository.ID q \<noteq> IDString s) \<or>
          (\<exists>edge edges. Edges q = edge # edges \<and> (\<forall>s. Node.ID edge \<noteq> IDString s))
            \<longrightarrow> (\<exists>err. fst (query env c owner name) = Failed err)) \<and>
         (\<forall>r. fst (query env c owner name) = Returned r \<longrightarrow>
            (\<exists>repositoryID edge edges releaseID url releaseURL.
               query_Repository.ID q = IDString repositoryID \<and> Edges q = edge # edges \<and>
               Node.ID edge = IDString releaseID \<and>
               query_Repository.URL q = Some url \<and> Node.URL edge = Some releaseURL \<and>
               r = \<lparr>Repository.ID = repositoryID,
                    Name = query_Repository.Name q,
                    Owner = owner,
                    Description = query_Repository.Description q,
                    URL = url,
                    Release =
                      \<lparr>Release.ID = releaseID,
                       Name = Node.Name edge,
                       Description = Node.Description edge,
                       URL = releaseURL,
                       PublishedAt = Node.PublishedAt edge\<rparr>\<rparr>))"
proof (intro conjI impI allI)
  assume "Edges q = [] \<or> (\<forall>s. query_Repository.ID q \<noteq> IDString s) \<or>
          (\<exists>edge edges. Edges q = edge # edges \<and> (\<forall>s. Node.ID edge \<noteq> IDString s))"
  then show "\<exists>err. fst (query env c owner name) = Failed err"
    using assms unfolding query_def
    by (auto split: githubv4_ID.splits list.splits option.splits)
next
  fix r assume "fst (query env c owner name) = Returned r"
  then show "\<exists>repositoryID edge edges releaseID url releaseURL.
               query_Repository.ID q = IDString repositoryID \<and> Edges q = edge # edges \<and>
               Node.ID edge = IDString releaseID \<and>
               query_Repository.URL q = Some url \<and> Node.URL edge = Some releaseURL \<and>
               r = \<lparr>Repository.ID = repositoryID,
                    Name = query_Repository.Name q,
                    Owner = owner,
                    Description = query_Repository.Description q,
                    URL = url,
                    Release =
                      \<lparr>Release.ID = releaseID,
                       Name = Node.Name edge,
                       Description = Node.Description edge,
                       URL = releaseURL,
                       PublishedAt = Node.PublishedAt edge\<rparr>\<rparr>"
    using assms unfolding query_def
    by (auto split: githubv4_ID.splits list.splits option.splits)
qed

theorem query_errors_witness:
  "(\<exists>err. fst (query mem_env (checker (serving ''acme'' ''widget'' no_releases) None)
                ''acme'' ''widget'') = Failed err) \<and>
   (\<exists>err. fst (query mem_env (checker (serving ''acme'' ''widget'' numeric_repository_id) None)
                ''acme'' ''widget'') = Failed err) \<and>
   (\<exists>err. fst (query mem_env (checker (serving ''acme'' ''widget'' nil_release_id) None)
                ''acme'' ''widget'') = Failed err) \<and>
   fst (query mem_env (checker serving_v100 None) ''acme'' ''widget'') = Returned v100 \<and>
   v100 =
     \<lparr>Repository.ID = ''R1'', Name = ''widget'', Owner = ''acme'', Description = '''',
      URL = ''u'',
      Release = \<lparr>Release.ID = ''L1'', Name = ''v1.0.0'', Description = '''', URL = ''r'',
                 PublishedAt = \<lparr>unixNano = 1704067200000000000, zoneOffset = 0\<rparr>\<rparr>\<rparr>"
proof -
  have 1: "Edges no_releases = [] \<or> (\<forall>s. query_Repository.ID no_releases \<noteq> IDString s) \<or>
          (\<exists>edge edges. Edges no_releases = edge # edges \<and> (\<forall>s. Node.ID edge \<noteq> IDString s))"
    by (simp add: no_releases_def)
  have 2: "Edges numeric_repository_id = [] \<or>
          (\<forall>s. query_Repository.ID numeric_repository_id \<noteq> IDString s) \<or>
          (\<exists>edge edges. Edges numeric_repository_id = edge # edges \<and>
             (\<forall>s. Node.ID edge \<noteq> IDString s))"
    by (simp add: numeric_repository_id_def)
  have 3: "Edges nil_release_id = [] \<or> (\<forall>s. query_Repository.ID nil_release_id \<noteq> IDString s) \<or>
          (\<exists>edge edges. Edges nil_release_id = edge # edges \<and> (\<forall>s. Node.ID edge \<noteq> IDString s))"
    by (simp add: nil_release_id_def)
  have 4: "fst (query mem_env (checker serving_v100 None) ''acme'' ''widget'') = Returned v100"
    by (simp add: query_serving_v100)
  have q4: "Query mem_env (client (checker serving_v100 None)) ''acme'' ''widget'' =
     (Inr (response ''R1'' ''L1'' ''v1.0.0'' 1704067200000000000), serving_v100)"
    unfolding serving_v100_def by (rule Query_serving)
  from query_errors [OF q4, THEN conjunct2, THEN spec, THEN mp, OF 4]
  have 5: "v100 =
     \<lparr>Repository.ID = ''R1'', Name = ''widget'', Owner = ''acme'', Description = '''',
      URL = ''u'',
      Release = \<lparr>Release.ID = ''L1'', Name = ''v1.0.0'', Description = '''', URL = ''r'',
                 PublishedAt = \<lparr>unixNano = 1704067200000000000, zoneOffset = 0\<rparr>\<rparr>\<rparr>"
    by (auto simp: response_def)
  show ?thesis
    using query_errors [OF Query_serving, THEN conjunct1, THEN mp, OF 1]
      query_errors [OF Query_serving, THEN conjunct1, THEN mp, OF 2]
      query_errors [OF Query_serving, THEN conjunct1, THEN mp, OF 3] 4 5
    by simp
qed

text \<open>
  Claim C10 (frame of one step). After a completed step for a key, the entry of every
  other key is what it was. What the step sends, and the entry it leaves for its key,
  depend on the map through the entry of that key only (the save writes the whole map).
  When the query of the step fails, the map, the file system and the channel are
  unchanged, and the step does the same whatever the map is.
\<close>

theorem frame_of_step:
  assumes "Run_body env c repoName = Inr c'"
  shows "(\<forall>k. k \<noteq> repoName \<longrightarrow>
            map_option (\<lambda>m. m k) (releases c') = map_option (\<lambda>m. m k) (releases c)) \<and>
         (\<forall>m m2. releases c = Some m \<and> m2 repoName = m repoName \<longrightarrow>
            (\<exists>c2. Run_body env (c\<lparr>releases := Some m2\<rparr>) repoName = Inr c2 \<and>
                  chan c2 = chan c' \<and> client c2 = client c' \<and>
                  map_option (\<lambda>m. m repoName) (releases c2)
                    = map_option (\<lambda>m. m repoName) (releases c'))) \<and>
         (\<forall>owner name rest err c1.
            Split repoName CHR ''/'' = owner # name # rest \<and>
            query env c owner name = (Failed err, c1) \<longrightarrow>
            releases c' = releases c \<and> disk c' = disk c \<and> chan c' = chan c \<and>
            (\<forall>r. Run_body env (c\<lparr>releases := r\<rparr>) repoName = Inr (c'\<lparr>releases := r\<rparr>)))"
proof (intro conjI allI impI)
  fix k assume "k \<noteq> repoName"
  then show "map_option (\<lambda>m. m k) (releases c') = map_option (\<lambda>m. m k) (releases c)"
    by (rule frame_other_keys [OF assms])
next
  fix m m2 assume "releases c = Some m \<and> m2 repoName = m repoName"
  then show "\<exists>c2. Run_body env (c\<lparr>releases := Some m2\<rparr>) repoName = Inr c2 \<and>
                  chan c2 = chan c' \<and> client c2 = client c' \<and>
                  map_option (\<lambda>m. m repoName) (releases c2)
                    = map_option (\<lambda>m. m repoName) (releases c')"
    using frame_only_own_entry [OF assms] by blast
next
  fix owner name rest err c1
  assume a: "Split repoName CHR ''/'' = owner # name # rest \<and>
             query env c owner name = (Failed err, c1)"
  note f = frame_failed_query [OF assms conjunct1 [OF a] conjunct2 [OF a]]
  from f show "releases c' = releases c" by simp
  from f show "disk c' = disk c" by simp
  from f show "chan c' = chan c" by simp
  fix r from f show "Run_body env (c\<lparr>releases := r\<rparr>) repoName = Inr (c'\<lparr>releases := r\<rparr>)"
    by simp
qed

theorem frame_of_step_witness:
  "Run_body mem_env scenario4_start ''acme/widget'' = Inr scenario4_failed \<and>
   map_option (\<lambda>m. m ''foo/bar'') (releases scenario4_failed) = Some (Some bar1) \<and>
   (\<exists>c2. Run_body mem_env (scenario4_start\<lparr>releases := Some Map.empty\<rparr>) ''acme/widget'' = Inr c2 \<and>
         chan c2 = [] \<and> map_option (\<lambda>m. m ''acme/widget'') (releases c2) = Some None) \<and>
   releases scenario4_failed = Some [''foo/bar'' \<mapsto> bar1] \<and>
   disk scenario4_failed = Map.empty \<and> chan scenario4_failed = [] \<and>
   Run_body mem_env (scenario4_start\<lparr>releases := None\<rparr>) ''acme/widget''
     = Inr (scenario4_failed\<lparr>releases := None\<rparr>)"
proof -
  have e: "Run_body mem_env scenario4_start ''acme/widget'' = Inr scenario4_failed"
    by (rule Run_body_scenario4_start)
  note q = query_scenario4_start
  have r: "releases scenario4_start = Some [''foo/bar'' \<mapsto> bar1]"
    by (simp add: scenario4_start_def checker_def)
  note f = frame_of_step [OF e]
  have 1: "map_option (\<lambda>m. m ''foo/bar'') (releases scenario4_failed) = Some (Some bar1)"
    using conjunct1 [OF f, rule_format, of "''foo/bar''"] r by simp
  have h2: "releases scenario4_start = Some [''foo/bar'' \<mapsto> bar1] \<and>
            (Map.empty :: string \<rightharpoonup> Repository) ''acme/widget''
              = [''foo/bar'' \<mapsto> bar1] ''acme/widget''"
    using r by simp
  note f2 = f [THEN conjunct2, THEN conjunct1, THEN spec [where x = "[''foo/bar'' \<mapsto> bar1]"],
      THEN spec [where x = Map.empty], THEN mp, OF h2]
  have 2: "\<exists>c2. Run_body mem_env (scenario4_start\<lparr>releases := Some Map.empty\<rparr>) ''acme/widget'' = Inr c2 \<and>
         chan c2 = [] \<and> map_option (\<lambda>m. m ''acme/widget'') (releases c2) = Some None"
  proof -
    from f2 obtain c2 where
      c2: "Run_body mem_env (scenario4_start\<lparr>releases := Some Map.empty\<rparr>) ''acme/widget'' = Inr c2"
      "chan c2 = chan scenario4_failed"
      "map_option (\<lambda>m. m ''acme/widget'') (releases c2)
         = map_option (\<lambda>m. m ''acme/widget'') (releases scenario4_failed)"
      by (elim exE conjE)
    have "chan scenario4_failed = []"
      "map_option (\<lambda>m. m ''acme/widget'') (releases scenario4_failed) = Some None"
      by (simp_all add: scenario4_failed_def scenario4_start_def checker_def)
    with c2 show ?thesis
      by (intro exI [of _ c2]) simp
  qed
  note f3 = f [THEN conjunct2, THEN conjunct2, THEN spec, THEN spec, THEN spec, THEN spec,
      THEN spec, THEN mp, OF conjI [OF Split_acme_widget q]]
  have 3: "releases scenario4_failed = releases scenario4_start \<and>
           disk scenario4_failed = disk scenario4_start \<and>
           chan scenario4_failed = chan scenario4_start \<and>
           Run_body mem_env (scenario4_start\<lparr>releases := None\<rparr>) ''acme/widget''
             = Inr (scenario4_failed\<lparr>releases := None\<rparr>)"
    using f3 by simp
  from e 1 2 3 show ?thesis
    by (simp add: scenario4_start_def checker_def)
qed

end
